theory Spec2Isabelle
  imports Complex_Main "HOL-Library.Multiset"
begin

section \<open>The zoomable viewport (src/components/ZoomableImage.tsx)\<close>

text \<open>
  The component keeps its view state in React state cells. Each handler is modelled as a
  function from the component state to the next one; an event is handled atomically, as
  one state update. JavaScript numbers are modelled as reals: the handlers only add,
  compare and take \<open>Math.min\<close>/\<open>Math.max\<close>, and the wheel and pointer events deliver
  finite numbers.
\<close>

record point =
  pos_x :: real
  pos_y :: real

definition origin :: point where
  "origin = \<lparr>pos_x = 0, pos_y = 0\<rparr>"

record viewport =
  scale :: real
  position :: point
  isDragging :: bool
  dragStart :: point
  showHint :: bool
  src :: string

record wheel_event =
  ctrlKey :: bool
  deltaY :: real

record mouse_event =
  clientX :: real
  clientY :: real

text \<open>The state after mounting with a source: \<open>useState\<close> initial values.\<close>

definition mount :: "string \<Rightarrow> viewport" where
  "mount s0 = \<lparr>scale = 1, position = origin, isDragging = False,
                dragStart = origin, showHint = False, src = s0\<rparr>"

text \<open>The effect with dependency \<open>[src]\<close>: it runs when the \<open>src\<close> prop differs from the
  one of the previous render.\<close>

definition resetEffect :: "viewport \<Rightarrow> viewport" where
  "resetEffect v = v\<lparr>scale := 1, position := origin\<rparr>"

definition setSrc :: "string \<Rightarrow> viewport \<Rightarrow> viewport" where
  "setSrc new v = (if new \<noteq> src v then resetEffect (v\<lparr>src := new\<rparr>) else v)"

definition handleWheel :: "wheel_event \<Rightarrow> viewport \<Rightarrow> viewport" where
  "handleWheel e v =
     (if ctrlKey e then
        (let delta = - deltaY e * 0.002;
             next = min (max 1 (scale v + delta)) 8
         in (if next = 1 then v\<lparr>position := origin\<rparr> else v)\<lparr>scale := next\<rparr>)
      else (if scale v = 1 then v\<lparr>showHint := True\<rparr> else v))"

text \<open>The hint's timer, two seconds later.\<close>

definition hintTimeout :: "viewport \<Rightarrow> viewport" where
  "hintTimeout v = v\<lparr>showHint := False\<rparr>"

definition handleMouseDown :: "mouse_event \<Rightarrow> viewport \<Rightarrow> viewport" where
  "handleMouseDown e v =
     (if scale v > 1 then
        v\<lparr>isDragging := True,
          dragStart := \<lparr>pos_x = clientX e - pos_x (position v),
                        pos_y = clientY e - pos_y (position v)\<rparr>\<rparr>
      else v)"

definition handleMouseMove :: "mouse_event \<Rightarrow> viewport \<Rightarrow> viewport" where
  "handleMouseMove e v =
     (if isDragging v \<and> scale v > 1 then
        v\<lparr>position := \<lparr>pos_x = clientX e - pos_x (dragStart v),
                       pos_y = clientY e - pos_y (dragStart v)\<rparr>\<rparr>
      else v)"

definition handleMouseUp :: "viewport \<Rightarrow> viewport" where
  "handleMouseUp v = v\<lparr>isDragging := False\<rparr>"

definition zoomIn :: "viewport \<Rightarrow> viewport" where
  "zoomIn v = v\<lparr>scale := min (scale v + 0.5) 8\<rparr>"

definition zoomOut :: "viewport \<Rightarrow> viewport" where
  "zoomOut v =
     (let next = max 1 (scale v - 0.5)
      in (if next = 1 then v\<lparr>position := origin\<rparr> else v)\<lparr>scale := next\<rparr>)"

definition reset :: "viewport \<Rightarrow> viewport" where
  "reset v = v\<lparr>scale := 1, position := origin\<rparr>"

text \<open>
  The events the component can receive. The two stepper buttons carry a \<open>disabled\<close>
  attribute (\<open>scale <= 1\<close> for zoom-out, \<open>scale >= 8\<close> for zoom-in): a click on a
  disabled button does not reach its handler.
\<close>

datatype viewport_event =
    Wheel wheel_event
  | MouseDown mouse_event
  | MouseMove mouse_event
  | MouseUp
  | MouseLeave
  | ClickZoomIn
  | ClickZoomOut
  | ClickReset
  | SrcChange string
  | HintTimeout

fun viewport_step :: "viewport \<Rightarrow> viewport_event \<Rightarrow> viewport" where
  "viewport_step v (Wheel e) = handleWheel e v"
| "viewport_step v (MouseDown e) = handleMouseDown e v"
| "viewport_step v (MouseMove e) = handleMouseMove e v"
| "viewport_step v MouseUp = handleMouseUp v"
| "viewport_step v MouseLeave = handleMouseUp v"
| "viewport_step v ClickZoomIn = (if scale v \<ge> 8 then v else zoomIn v)"
| "viewport_step v ClickZoomOut = (if scale v \<le> 1 then v else zoomOut v)"
| "viewport_step v ClickReset = reset v"
| "viewport_step v (SrcChange s) = setSrc s v"
| "viewport_step v HintTimeout = hintTimeout v"

definition viewport_run :: "viewport \<Rightarrow> viewport_event list \<Rightarrow> viewport" where
  "viewport_run v es = foldl viewport_step v es"

text \<open>The invariant of the data model: the scale is in \<open>[1, 8]\<close>, and a fitted view is
  not translated.\<close>

definition viewport_inv :: "viewport \<Rightarrow> bool" where
  "viewport_inv v \<longleftrightarrow> 1 \<le> scale v \<and> scale v \<le> 8 \<and> (scale v = 1 \<longrightarrow> position v = origin)"

subsection \<open>Each handler keeps the invariant\<close>

lemma mount_inv: "viewport_inv (mount s0)"
  by (simp add: viewport_inv_def mount_def)

lemma handleWheel_inv: "viewport_inv v \<Longrightarrow> viewport_inv (handleWheel e v)"
  by (auto simp: viewport_inv_def handleWheel_def Let_def)

lemma zoomIn_inv: "viewport_inv v \<Longrightarrow> viewport_inv (zoomIn v)"
  by (auto simp: viewport_inv_def zoomIn_def min_def)

lemma zoomOut_inv: "viewport_inv v \<Longrightarrow> viewport_inv (zoomOut v)"
  by (auto simp: viewport_inv_def zoomOut_def Let_def max_def)

lemma reset_inv: "viewport_inv (reset v)"
  by (simp add: viewport_inv_def reset_def)

lemma setSrc_inv: "viewport_inv v \<Longrightarrow> viewport_inv (setSrc s v)"
  by (simp add: viewport_inv_def setSrc_def resetEffect_def)

lemma handleMouseDown_inv: "viewport_inv v \<Longrightarrow> viewport_inv (handleMouseDown e v)"
  by (simp add: viewport_inv_def handleMouseDown_def)

lemma handleMouseMove_inv: "viewport_inv v \<Longrightarrow> viewport_inv (handleMouseMove e v)"
  by (auto simp: viewport_inv_def handleMouseMove_def)

lemma handleMouseUp_inv: "viewport_inv v \<Longrightarrow> viewport_inv (handleMouseUp v)"
  by (simp add: viewport_inv_def handleMouseUp_def)

lemma hintTimeout_inv: "viewport_inv v \<Longrightarrow> viewport_inv (hintTimeout v)"
  by (simp add: viewport_inv_def hintTimeout_def)

lemma viewport_step_inv: "viewport_inv v \<Longrightarrow> viewport_inv (viewport_step v e)"
  by (cases e)
     (simp_all add: handleWheel_inv zoomIn_inv zoomOut_inv reset_inv setSrc_inv
        handleMouseDown_inv handleMouseMove_inv handleMouseUp_inv hintTimeout_inv)

lemma viewport_run_inv: "viewport_inv v \<Longrightarrow> viewport_inv (viewport_run v es)"
  unfolding viewport_run_def
  by (induction es arbitrary: v) (simp_all add: viewport_step_inv)

subsection \<open>Claims about the viewport\<close>

text \<open>
  C1. After any sequence of events of the component (wheel with or without the modifier,
  the zoom-in and zoom-out steppers, reset, pointer drags, a change of the source, the
  hint timer), starting from the mounted state, the scale lies in \<open>[1, 8]\<close> and a scale of
  exactly \<open>1\<close> comes with the translation \<open>(0, 0)\<close>. Every prefix of a sequence is a
  sequence, so this holds after every single update.
\<close>

theorem viewport_scale_bounds_and_fitted_origin:
  "1 \<le> scale (viewport_run (mount s0) es) \<and>
   scale (viewport_run (mount s0) es) \<le> 8 \<and>
   (scale (viewport_run (mount s0) es) = 1 \<longrightarrow>
      position (viewport_run (mount s0) es) = origin)"
  using viewport_run_inv [OF mount_inv, of s0 es]
  by (simp add: viewport_inv_def)

theorem viewport_scale_bounds_and_fitted_origin_witness:
  "scale (viewport_run (mount ''a'')
      [ClickZoomIn, MouseDown \<lparr>clientX = 3, clientY = 4\<rparr>,
       MouseMove \<lparr>clientX = 10, clientY = 20\<rparr>, MouseUp,
       Wheel \<lparr>ctrlKey = True, deltaY = 1000\<rparr>]) = 1 \<and>
   position (viewport_run (mount ''a'')
      [ClickZoomIn, MouseDown \<lparr>clientX = 3, clientY = 4\<rparr>,
       MouseMove \<lparr>clientX = 10, clientY = 20\<rparr>, MouseUp,
       Wheel \<lparr>ctrlKey = True, deltaY = 1000\<rparr>]) = origin"
  using viewport_scale_bounds_and_fitted_origin [of "''a''"
      "[ClickZoomIn, MouseDown \<lparr>clientX = 3, clientY = 4\<rparr>,
        MouseMove \<lparr>clientX = 10, clientY = 20\<rparr>, MouseUp,
        Wheel \<lparr>ctrlKey = True, deltaY = 1000\<rparr>]"]
  by (simp add: viewport_run_def mount_def zoomIn_def handleMouseDown_def
        handleMouseMove_def handleMouseUp_def handleWheel_def Let_def origin_def)

text \<open>
  C7. When the displayed image changes, the view is reset to scale \<open>1\<close> and translation
  \<open>(0, 0)\<close>, whatever the zoom and pan were: a component mounted for a new result starts
  there, and a \<open>src\<close> prop that differs from the previous one runs the reset effect.
\<close>

theorem src_change_resets_viewport:
  "scale (mount new) = 1 \<and> position (mount new) = origin \<and>
   (new \<noteq> src v \<longrightarrow>
      scale (setSrc new v) = 1 \<and> position (setSrc new v) = origin \<and> src (setSrc new v) = new)"
  by (simp add: mount_def setSrc_def resetEffect_def)

theorem src_change_resets_viewport_witness:
  "''b'' \<noteq> src \<lparr>scale = 3, position = \<lparr>pos_x = 5, pos_y = -6\<rparr>, isDragging = True,
                  dragStart = origin, showHint = False, src = ''a''\<rparr> \<and>
   scale (setSrc ''b'' \<lparr>scale = 3, position = \<lparr>pos_x = 5, pos_y = -6\<rparr>, isDragging = True,
                  dragStart = origin, showHint = False, src = ''a''\<rparr>) = 1 \<and>
   position (setSrc ''b'' \<lparr>scale = 3, position = \<lparr>pos_x = 5, pos_y = -6\<rparr>, isDragging = True,
                  dragStart = origin, showHint = False, src = ''a''\<rparr>) = origin"
  using src_change_resets_viewport [of "''b''"
      "\<lparr>scale = 3, position = \<lparr>pos_x = 5, pos_y = -6\<rparr>, isDragging = True,
        dragStart = origin, showHint = False, src = ''a''\<rparr>"]
  by simp

text \<open>
  C8. While the scale is \<open>1\<close>, a drag changes nothing: the drag-start handler and the
  drag-move handler both return the component state as it was, so the translation (and
  the scale) stay unchanged through the whole gesture.
\<close>

theorem pan_at_scale_one_is_noop:
  "scale v = 1 \<Longrightarrow> handleMouseDown e v = v \<and> handleMouseMove e' v = v"
  by (simp add: handleMouseDown_def handleMouseMove_def)

theorem pan_at_scale_one_is_noop_witness:
  "scale (mount ''a'') = 1 \<and>
   handleMouseDown \<lparr>clientX = 3, clientY = 4\<rparr> (mount ''a'') = mount ''a'' \<and>
   handleMouseMove \<lparr>clientX = 10, clientY = 20\<rparr> (mount ''a'') = mount ''a''"
  using pan_at_scale_one_is_noop [of "mount ''a''" "\<lparr>clientX = 3, clientY = 4\<rparr>"
      "\<lparr>clientX = 10, clientY = 20\<rparr>"]
  by (simp add: mount_def)

section \<open>Image ingestion (src/components/DragDropZone.tsx)\<close>

text \<open>
  A file of a batch: its declared media type (\<open>file.type\<close>) and the data URL that
  \<open>FileReader.readAsDataURL\<close> yields for it.
\<close>

record raw_file =
  ftype :: string
  dataURL :: string

record ImageState =
  data :: string
  mimeType :: string

definition startsWith :: "string \<Rightarrow> string \<Rightarrow> bool" where
  "startsWith s p \<longleftrightarrow> take (length p) s = p"

definition isImage :: "raw_file \<Rightarrow> bool" where
  "isImage f \<longleftrightarrow> startsWith (ftype f) ''image/''"

text \<open>The entry \<open>reader.onload\<close> pushes for a file.\<close>

definition encoded :: "raw_file \<Rightarrow> ImageState" where
  "encoded f = \<lparr>data = dataURL f, mimeType = ftype f\<rparr>"

text \<open>
  The variables one call of \<open>processFiles\<close> closes over: the local list \<open>newImages\<close>, the
  counter \<open>processedCount\<close>, and the arguments of the calls of \<open>onImagesChange\<close> made so
  far, oldest first.
\<close>

record batch =
  newImages :: "ImageState list"
  processedCount :: nat
  committed :: "ImageState list list"

definition batch_init :: batch where
  "batch_init = \<lparr>newImages = [], processedCount = 0, committed = []\<rparr>"

definition commit :: "ImageState list \<Rightarrow> batch \<Rightarrow> batch" where
  "commit currentImages b = b\<lparr>committed := committed b @ [currentImages @ newImages b]\<rparr>"

text \<open>
  The body of \<open>filesArray.forEach\<close>, which runs synchronously over the batch. For an image
  file it starts a reader and returns; the reader's \<open>onload\<close> runs later. The component
  exists in two versions: one only counts a skipped file (\<open>visit0\<close>), the other also
  checks for completion there (\<open>visit\<close>).
\<close>

definition visit0 :: "ImageState list \<Rightarrow> nat \<Rightarrow> batch \<Rightarrow> raw_file \<Rightarrow> batch" where
  "visit0 currentImages n b f =
     (if \<not> startsWith (ftype f) ''image/'' then b\<lparr>processedCount := processedCount b + 1\<rparr>
      else b)"

definition visit :: "ImageState list \<Rightarrow> nat \<Rightarrow> batch \<Rightarrow> raw_file \<Rightarrow> batch" where
  "visit currentImages n b f =
     (if \<not> startsWith (ftype f) ''image/'' then
        (let b' = b\<lparr>processedCount := processedCount b + 1\<rparr>
         in if processedCount b' = n \<and> length (newImages b') > 0
            then commit currentImages b' else b')
      else b)"

definition onload :: "ImageState list \<Rightarrow> nat \<Rightarrow> batch \<Rightarrow> raw_file \<Rightarrow> batch" where
  "onload currentImages n b f =
     (let b' = b\<lparr>newImages := newImages b @ [\<lparr>data = dataURL f, mimeType = ftype f\<rparr>],
                 processedCount := processedCount b + 1\<rparr>
      in if processedCount b' = n then commit currentImages b' else b')"

text \<open>
  One call of \<open>processFiles\<close> together with the completions of its readers: \<open>files\<close> is
  the batch in input order, \<open>completed\<close> lists the files whose \<open>onload\<close> fired, in the
  order in which they fired.
\<close>

definition processFiles0 :: "ImageState list \<Rightarrow> raw_file list \<Rightarrow> raw_file list \<Rightarrow> batch" where
  "processFiles0 currentImages files completed =
     (if length files = 0 then batch_init
      else foldl (onload currentImages (length files))
             (foldl (visit0 currentImages (length files)) batch_init files) completed)"

definition processFiles :: "ImageState list \<Rightarrow> raw_file list \<Rightarrow> raw_file list \<Rightarrow> batch" where
  "processFiles currentImages files completed =
     (if length files = 0 then batch_init
      else foldl (onload currentImages (length files))
             (foldl (visit currentImages (length files)) batch_init files) completed)"

text \<open>
  The source image set after the batch. \<open>onImagesChange\<close> is the setter of the set, and
  it is called with a whole list, so the last call decides whatever the set held at that
  moment; with no call the set stays as it is. \<open>live\<close> is the set as it stands when the
  readers complete. It is the \<open>currentImages\<close> the call of \<open>processFiles\<close> closed over
  only when nothing else wrote the set in between: a removal, or the commit of another
  batch, makes the two differ.
\<close>

definition sourceImagesAfter :: "ImageState list \<Rightarrow> batch \<Rightarrow> ImageState list" where
  "sourceImagesAfter live b = (if committed b = [] then live else last (committed b))"

subsection \<open>The synchronous pass and the completions\<close>

lemma visit_pass:
  "newImages b = [] \<Longrightarrow>
   foldl (visit cur n) b fs =
     b\<lparr>processedCount := processedCount b + length (filter (\<lambda>f. \<not> isImage f) fs)\<rparr>"
  by (induction fs arbitrary: b) (simp_all add: visit_def isImage_def Let_def)

lemma visit0_pass:
  "foldl (visit0 cur n) b fs =
     b\<lparr>processedCount := processedCount b + length (filter (\<lambda>f. \<not> isImage f) fs)\<rparr>"
  by (induction fs arbitrary: b) (simp_all add: visit0_def isImage_def)

lemma onload_completions:
  "cs \<noteq> [] \<Longrightarrow> processedCount b + length cs = n \<Longrightarrow>
   foldl (onload cur n) b cs =
     b\<lparr>newImages := newImages b @ map encoded cs,
        processedCount := n,
        committed := committed b @ [cur @ newImages b @ map encoded cs]\<rparr>"
proof (induction cs arbitrary: b)
  case Nil
  then show ?case by simp
next
  case (Cons c cs)
  show ?case
  proof (cases "cs = []")
    case True
    with Cons.prems show ?thesis
      by (simp add: onload_def commit_def encoded_def Let_def)
  next
    case False
    let ?b' = "b\<lparr>newImages := newImages b @ [encoded c],
                   processedCount := processedCount b + 1\<rparr>"
    from False Cons.prems have ne: "processedCount b + 1 \<noteq> n"
      by (cases cs) auto
    then have step: "onload cur n b c = ?b'"
      by (simp add: onload_def encoded_def Let_def)
    from Cons.prems have "processedCount ?b' + length cs = n" by simp
    from Cons.IH [OF False this] step show ?thesis by simp
  qed
qed

lemma batch_split: "length (filter isImage fs) + length (filter (\<lambda>f. \<not> isImage f) fs) = length fs"
  by (rule sum_length_filter_compl)

lemma processFiles_result:
  assumes "mset completed = mset (filter isImage files)" and "completed \<noteq> []"
  shows "processFiles cur files completed =
           \<lparr>newImages = map encoded completed, processedCount = length files,
            committed = [cur @ map encoded completed]\<rparr>"
proof -
  from assms(1) have len: "length completed = length (filter isImage files)"
    by (rule mset_eq_length)
  with assms(2) have ne: "files \<noteq> []" by auto
  let ?b = "foldl (visit cur (length files)) batch_init files"
  have b: "?b = batch_init\<lparr>processedCount := length (filter (\<lambda>f. \<not> isImage f) files)\<rparr>"
    by (simp add: visit_pass batch_init_def)
  have "processedCount ?b + length completed = length files"
    using batch_split [of files] len unfolding b by (simp add: batch_init_def)
  from onload_completions [OF assms(2) this, of cur] ne show ?thesis
    unfolding processFiles_def b by (simp add: batch_init_def)
qed

lemma processFiles0_eq: "processFiles0 cur files completed = processFiles cur files completed"
  by (simp add: processFiles0_def processFiles_def visit_pass visit0_pass batch_init_def)

lemma processFiles_no_completion: "committed (processFiles cur files []) = []"
  by (simp add: processFiles_def visit_pass batch_init_def)

subsection \<open>Claims about ingestion\<close>

text \<open>
  C2, as stated: whatever the order in which the readers complete, the set after the
  batch is the old set followed by the entries of the valid files in input order. The
  code pushes each entry when its reader completes, so this fails as soon as two readers
  complete out of input order: a PNG, a text file and a JPEG, with the JPEG read first.
\<close>

theorem ingestion_input_order_counterexample:
  "sourceImagesAfter []
     (processFiles []
        [\<lparr>ftype = ''image/png'', dataURL = ''data:image/png;base64,AA''\<rparr>,
         \<lparr>ftype = ''text/plain'', dataURL = ''data:text/plain;base64,BB''\<rparr>,
         \<lparr>ftype = ''image/jpeg'', dataURL = ''data:image/jpeg;base64,CC''\<rparr>]
        [\<lparr>ftype = ''image/jpeg'', dataURL = ''data:image/jpeg;base64,CC''\<rparr>,
         \<lparr>ftype = ''image/png'', dataURL = ''data:image/png;base64,AA''\<rparr>])
   \<noteq> [] @ map encoded (filter isImage
        [\<lparr>ftype = ''image/png'', dataURL = ''data:image/png;base64,AA''\<rparr>,
         \<lparr>ftype = ''text/plain'', dataURL = ''data:text/plain;base64,BB''\<rparr>,
         \<lparr>ftype = ''image/jpeg'', dataURL = ''data:image/jpeg;base64,CC''\<rparr>])"
  by (simp add: sourceImagesAfter_def processFiles_def visit_def onload_def commit_def
        batch_init_def encoded_def isImage_def startsWith_def Let_def)

text \<open>
  C2, amended: let the readers of all valid files of a batch have completed, \<open>K\<close> being
  the number of valid files. With \<open>K = 0\<close> neither version of \<open>processFiles\<close> calls
  \<open>onImagesChange\<close>, and the set stays as it is. With \<open>K \<ge> 1\<close> both versions call it
  exactly once, and the call sets the set to the snapshot \<open>currentImages\<close> that
  \<open>processFiles\<close> closed over when the batch was submitted, followed by one entry for
  each valid file, in the order in which the readers completed; this is so whatever the
  set holds at that moment. Hence, for every \<open>K\<close>, a set that nothing else wrote between
  submission and completion grows by exactly \<open>K\<close> entries appended after its entries;
  the new entries are in input order when the readers completed in input order.
\<close>

theorem ingestion_commit_in_completion_order:
  assumes "mset completed = mset (filter isImage files)"
  shows "(completed = [] \<longrightarrow>
            committed (processFiles cur files completed) = [] \<and>
            sourceImagesAfter live (processFiles cur files completed) = live) \<and>
         (completed \<noteq> [] \<longrightarrow>
            committed (processFiles cur files completed) = [cur @ map encoded completed] \<and>
            sourceImagesAfter live (processFiles cur files completed)
              = cur @ map encoded completed) \<and>
         sourceImagesAfter cur (processFiles cur files completed) = cur @ map encoded completed \<and>
         length (sourceImagesAfter cur (processFiles cur files completed)) =
           length cur + length (filter isImage files) \<and>
         mset (map encoded completed) = mset (map encoded (filter isImage files)) \<and>
         processFiles0 cur files completed = processFiles cur files completed \<and>
         (completed = filter isImage files \<longrightarrow>
            sourceImagesAfter cur (processFiles cur files completed) =
              cur @ map encoded (filter isImage files))"
proof -
  have len: "length completed = length (filter isImage files)"
    using assms by (rule mset_eq_length)
  have perm: "mset (map encoded completed) = mset (map encoded (filter isImage files))"
    using arg_cong [OF assms, of "image_mset encoded"] by simp
  show ?thesis
  proof (cases "completed = []")
    case True
    with len have none: "filter isImage files = []" by simp
    from True none show ?thesis
      by (simp add: processFiles0_eq processFiles_no_completion sourceImagesAfter_def)
  next
    case False
    show ?thesis
      unfolding processFiles0_eq processFiles_result [OF assms False]
      using False len perm by (simp add: sourceImagesAfter_def)
  qed
qed

theorem ingestion_commit_in_completion_order_witness:
  "sourceImagesAfter []
     (processFiles [\<lparr>data = ''data:image/gif;base64,DD'', mimeType = ''image/gif''\<rparr>]
        [\<lparr>ftype = ''image/png'', dataURL = ''data:image/png;base64,AA''\<rparr>,
         \<lparr>ftype = ''text/plain'', dataURL = ''data:text/plain;base64,BB''\<rparr>,
         \<lparr>ftype = ''image/jpeg'', dataURL = ''data:image/jpeg;base64,CC''\<rparr>]
        [\<lparr>ftype = ''image/jpeg'', dataURL = ''data:image/jpeg;base64,CC''\<rparr>,
         \<lparr>ftype = ''image/png'', dataURL = ''data:image/png;base64,AA''\<rparr>])
   = [\<lparr>data = ''data:image/gif;base64,DD'', mimeType = ''image/gif''\<rparr>,
      \<lparr>data = ''data:image/jpeg;base64,CC'', mimeType = ''image/jpeg''\<rparr>,
      \<lparr>data = ''data:image/png;base64,AA'', mimeType = ''image/png''\<rparr>] \<and>
   committed
     (processFiles [\<lparr>data = ''data:image/gif;base64,DD'', mimeType = ''image/gif''\<rparr>]
        [\<lparr>ftype = ''text/plain'', dataURL = ''data:text/plain;base64,BB''\<rparr>] []) = [] \<and>
   sourceImagesAfter [\<lparr>data = ''data:image/gif;base64,DD'', mimeType = ''image/gif''\<rparr>]
     (processFiles [\<lparr>data = ''data:image/gif;base64,DD'', mimeType = ''image/gif''\<rparr>]
        [\<lparr>ftype = ''text/plain'', dataURL = ''data:text/plain;base64,BB''\<rparr>] [])
   = [\<lparr>data = ''data:image/gif;base64,DD'', mimeType = ''image/gif''\<rparr>] \<and>
   sourceImagesAfter [\<lparr>data = ''data:image/gif;base64,DD'', mimeType = ''image/gif''\<rparr>]
     (processFiles [\<lparr>data = ''data:image/gif;base64,DD'', mimeType = ''image/gif''\<rparr>]
        [\<lparr>ftype = ''image/png'', dataURL = ''data:image/png;base64,AA''\<rparr>,
         \<lparr>ftype = ''image/jpeg'', dataURL = ''data:image/jpeg;base64,CC''\<rparr>]
        [\<lparr>ftype = ''image/png'', dataURL = ''data:image/png;base64,AA''\<rparr>,
         \<lparr>ftype = ''image/jpeg'', dataURL = ''data:image/jpeg;base64,CC''\<rparr>])
   = [\<lparr>data = ''data:image/gif;base64,DD'', mimeType = ''image/gif''\<rparr>,
      \<lparr>data = ''data:image/png;base64,AA'', mimeType = ''image/png''\<rparr>,
      \<lparr>data = ''data:image/jpeg;base64,CC'', mimeType = ''image/jpeg''\<rparr>]"
proof -
  let ?gif = "\<lparr>data = ''data:image/gif;base64,DD'', mimeType = ''image/gif''\<rparr>"
  let ?png = "\<lparr>ftype = ''image/png'', dataURL = ''data:image/png;base64,AA''\<rparr>"
  let ?doc = "\<lparr>ftype = ''text/plain'', dataURL = ''data:text/plain;base64,BB''\<rparr>"
  let ?jpg = "\<lparr>ftype = ''image/jpeg'', dataURL = ''data:image/jpeg;base64,CC''\<rparr>"
  have h1: "mset [?jpg, ?png] = mset (filter isImage [?png, ?doc, ?jpg])"
    by (simp add: isImage_def startsWith_def)
  have h2: "mset [] = mset (filter isImage [?doc])"
    by (simp add: isImage_def startsWith_def)
  have h3: "mset [?png, ?jpg] = mset (filter isImage [?png, ?jpg])"
    by (simp add: isImage_def startsWith_def)
  have f3: "filter isImage [?png, ?jpg] = [?png, ?jpg]"
    by (simp add: isImage_def startsWith_def)
  from ingestion_commit_in_completion_order [OF h1, of "[?gif]" "[]"]
  have a: "sourceImagesAfter [] (processFiles [?gif] [?png, ?doc, ?jpg] [?jpg, ?png])
      = [?gif] @ map encoded [?jpg, ?png]"
    by simp
  from ingestion_commit_in_completion_order [OF h2, of "[?gif]" "[?gif]"]
  have b: "committed (processFiles [?gif] [?doc] []) = [] \<and>
      sourceImagesAfter [?gif] (processFiles [?gif] [?doc] []) = [?gif]"
    by simp
  from ingestion_commit_in_completion_order [OF h3, of "[?gif]" "[?gif]"] f3
  have c: "sourceImagesAfter [?gif] (processFiles [?gif] [?png, ?jpg] [?png, ?jpg])
      = [?gif] @ map encoded [?png, ?jpg]"
    by simp
  from a b c show ?thesis by (simp add: encoded_def)
qed

section \<open>Strings as JavaScript uses them\<close>

text \<open>
  Strings are lists of characters, read as code units below 256. \<open>trim\<close> removes the
  white space among them (space, tab, line feed, vertical tab, form feed, carriage
  return, and the no-break space U+00A0) at both ends; \<open>toLowerCase\<close> maps the ASCII
  capitals; \<open>includes_str\<close> is the substring test \<open>s.includes(sub)\<close>.
\<close>

definition isWhitespace :: "char \<Rightarrow> bool" where
  "isWhitespace c \<longleftrightarrow>
     c = CHR '' '' \<or> (9 \<le> (of_char c :: nat) \<and> (of_char c :: nat) \<le> 13)
       \<or> (of_char c :: nat) = 160"

definition trim :: "string \<Rightarrow> string" where
  "trim s = rev (dropWhile isWhitespace (rev (dropWhile isWhitespace s)))"

definition lowerChar :: "char \<Rightarrow> char" where
  "lowerChar c =
     (case map_of (zip ''ABCDEFGHIJKLMNOPQRSTUVWXYZ'' ''abcdefghijklmnopqrstuvwxyz'') c of
        Some l \<Rightarrow> l
      | None \<Rightarrow> c)"

definition toLowerCase :: "string \<Rightarrow> string" where
  "toLowerCase s = map lowerChar s"

fun includes_str :: "string \<Rightarrow> string \<Rightarrow> bool" where
  "includes_str [] sub = (sub = [])"
| "includes_str (c # cs) sub = (startsWith (c # cs) sub \<or> includes_str cs sub)"

text \<open>\<open>cut sep s\<close> splits \<open>s\<close> at the first occurrence of \<open>sep\<close>; \<open>split_second sep s\<close> is
  \<open>s.split(sep)[1]\<close>, the piece between the first occurrence and the next one, and
  \<open>None\<close> (JavaScript's \<open>undefined\<close>) when \<open>sep\<close> does not occur.\<close>

fun cut :: "string \<Rightarrow> string \<Rightarrow> (string \<times> string) option" where
  "cut sep [] = None"
| "cut sep (c # cs) =
     (if startsWith (c # cs) sep then Some ([], drop (length sep) (c # cs))
      else (case cut sep cs of None \<Rightarrow> None | Some (a, b) \<Rightarrow> Some (c # a, b)))"

definition split_second :: "string \<Rightarrow> string \<Rightarrow> string option" where
  "split_second sep s =
     (case cut sep s of
        None \<Rightarrow> None
      | Some (a, rest) \<Rightarrow> (case cut sep rest of None \<Rightarrow> Some rest | Some (p, r) \<Rightarrow> Some p))"

text \<open>\<open>m || d\<close> on a string that may be absent: the default replaces \<open>undefined\<close> and the
  empty string.\<close>

text \<open>A string that may be \<open>null\<close> is truthy when it is there and not empty.\<close>

fun truthy :: "string option \<Rightarrow> bool" where
  "truthy None = False"
| "truthy (Some m) = (m \<noteq> [])"

fun orDefault :: "string option \<Rightarrow> string \<Rightarrow> string" where
  "orDefault None d = d"
| "orDefault (Some m) d = (if m = [] then d else m)"

section \<open>The generation client (services/gemini.ts)\<close>

record GenerateOptions =
  opt_prompt :: string
  opt_sourceImages :: "ImageState list option"
  opt_aspectRatio :: "string option"

text \<open>What the wrapper passes to \<open>ai.models.generateContent\<close>.\<close>

datatype request_part = InlineData string string | TextPart string

record remote_request =
  model :: string
  parts :: "request_part list"
  imageAspectRatio :: string
  systemInstruction :: string

text \<open>
  What the remote call yields: it throws (an error whose \<open>message\<close> may be absent), or it
  returns a response. A response may have no candidates; a candidate's content may
  have no parts (\<open>None\<close> stands for a missing \<open>content\<close> as well as for a missing
  \<open>content.parts\<close>); a part may carry inline data (media type and bytes), text, both or
  neither.
\<close>

record response_part =
  inlineData :: "(string \<times> string) option"
  text_of :: "string option"

record candidate =
  content_parts :: "response_part list option"

record response =
  candidates :: "candidate list option"

datatype remote_outcome = Throws "string option" | Returns response

definition MODEL_NAME :: string where
  "MODEL_NAME = ''gemini-2.5-flash-image''"

definition SUPPORTED_ASPECT_RATIOS :: "string list" where
  "SUPPORTED_ASPECT_RATIOS =
     [''1:1'', ''2:3'', ''3:2'', ''3:4'', ''4:3'', ''4:5'', ''5:4'', ''9:16'', ''16:9'', ''21:9'']"

definition baseInstruction :: string where
  "baseInstruction = ''You are an advanced image generation model. Your task is to generate or edit images based on the user's prompt. Do not output text descriptions; always generate the requested image.''"

definition cleanBase64 :: "string \<Rightarrow> string" where
  "cleanBase64 d =
     (if includes_str d ''base64,'' then
        (case split_second ''base64,'' d of Some p \<Rightarrow> p | None \<Rightarrow> d)
      else d)"

definition imageParts :: "ImageState list option \<Rightarrow> request_part list" where
  "imageParts imgs =
     (case imgs of
        None \<Rightarrow> []
      | Some xs \<Rightarrow> map (\<lambda>img. InlineData (cleanBase64 (data img)) (mimeType img)) xs)"

definition finalPrompt :: "string \<Rightarrow> ImageState list option \<Rightarrow> string" where
  "finalPrompt p imgs =
     (if imgs = None \<or> imgs = Some [] then
        (let lowerPrompt = toLowerCase p
         in if \<not> includes_str lowerPrompt ''generate'' \<and> \<not> includes_str lowerPrompt ''create''
               \<and> \<not> includes_str lowerPrompt ''image''
            then ''Generate an image of '' @ p else p)
      else p)"

text \<open>The parameter default \<open>aspectRatio = "1:1"\<close>.\<close>

definition ratioOf :: "GenerateOptions \<Rightarrow> string" where
  "ratioOf opts = (case opt_aspectRatio opts of None \<Rightarrow> ''1:1'' | Some r \<Rightarrow> r)"

text \<open>The request of the version that knows the supported ratios.\<close>

definition isSpecialRatio :: "string \<Rightarrow> bool" where
  "isSpecialRatio r \<longleftrightarrow> r \<notin> set SUPPORTED_ASPECT_RATIOS"

definition configRatio :: "string \<Rightarrow> string" where
  "configRatio r = (if isSpecialRatio r then ''21:9'' else r)"

definition systemInstructionFor :: "string \<Rightarrow> string" where
  "systemInstructionFor r =
     (if isSpecialRatio r then
        baseInstruction @ '' Special formatting request: The user wants an ultra-wide panoramic aspect ratio of ''
          @ r @ ''. Since the canvas is limited to 21:9, ensure the composition is cinematic and uses the full horizontal width for an ultra-wide feel.''
      else baseInstruction)"

definition buildRequest :: "GenerateOptions \<Rightarrow> remote_request" where
  "buildRequest opts =
     \<lparr>model = MODEL_NAME,
      parts = imageParts (opt_sourceImages opts)
                @ [TextPart (finalPrompt (opt_prompt opts) (opt_sourceImages opts))],
      imageAspectRatio = configRatio (ratioOf opts),
      systemInstruction = systemInstructionFor (ratioOf opts)\<rparr>"

text \<open>The request of the version that passes the ratio on as it is.\<close>

definition buildRequest_plain :: "GenerateOptions \<Rightarrow> remote_request" where
  "buildRequest_plain opts =
     \<lparr>model = MODEL_NAME,
      parts = imageParts (opt_sourceImages opts)
                @ [TextPart (finalPrompt (opt_prompt opts) (opt_sourceImages opts))],
      imageAspectRatio = ratioOf opts,
      systemInstruction = baseInstruction\<rparr>"

text \<open>Reading the response: the first part with inline data wins; otherwise the first
  part with a non-empty text is thrown as an error; otherwise the response is empty.\<close>

fun firstInline :: "response_part list \<Rightarrow> (string \<times> string) option" where
  "firstInline [] = None"
| "firstInline (p # ps) = (case inlineData p of Some d \<Rightarrow> Some d | None \<Rightarrow> firstInline ps)"

fun firstText :: "response_part list \<Rightarrow> string option" where
  "firstText [] = None"
| "firstText (p # ps) =
     (case text_of p of
        Some t \<Rightarrow> (if t \<noteq> [] then Some t else firstText ps)
      | None \<Rightarrow> firstText ps)"

definition noImageMessage :: string where
  "noImageMessage = ''No image generated. The model response was empty or invalid.''"

definition parseResponse :: "response \<Rightarrow> string + string" where
  "parseResponse r =
     (case candidates r of
        Some (c # cs) \<Rightarrow>
          (case content_parts c of
             Some ps \<Rightarrow>
               (case firstInline ps of
                  Some (mt, d) \<Rightarrow> Inr (''data:'' @ mt @ '';base64,'' @ d)
                | None \<Rightarrow>
                    (case firstText ps of
                       Some t \<Rightarrow> Inl (''Model returned text instead of image: '' @ t)
                     | None \<Rightarrow> Inl noImageMessage))
           | None \<Rightarrow> Inl noImageMessage)
      | _ \<Rightarrow> Inl noImageMessage)"

text \<open>The \<open>catch\<close> around the whole body: whatever was thrown is thrown again as an error
  with the same message, or with a default when there is none. \<open>Inl\<close> is a rejected
  promise with that message, \<open>Inr\<close> the data URL the promise resolves to.\<close>

definition settle :: "remote_outcome \<Rightarrow> string + string" where
  "settle out =
     (case out of
        Throws m \<Rightarrow> Inl (orDefault m ''Failed to process image request.'')
      | Returns r \<Rightarrow>
          (case parseResponse r of
             Inl m \<Rightarrow> Inl (orDefault (Some m) ''Failed to process image request.'')
           | Inr u \<Rightarrow> Inr u))"

definition generateOrEditImage ::
    "(remote_request \<Rightarrow> remote_outcome) \<Rightarrow> GenerateOptions \<Rightarrow> string + string" where
  "generateOrEditImage remote opts = settle (remote (buildRequest opts))"

definition generateOrEditImage_plain ::
    "(remote_request \<Rightarrow> remote_outcome) \<Rightarrow> GenerateOptions \<Rightarrow> string + string" where
  "generateOrEditImage_plain remote opts = settle (remote (buildRequest_plain opts))"

subsection \<open>Claims about the generation client\<close>

text \<open>
  C10. For a request whose aspect ratio is outside the supported list, the wrapper puts
  \<open>21:9\<close> into the image configuration and appends to the system instruction the
  ultra-wide panoramic request that names the ratio asked for; for a ratio in the list,
  the ratio is passed on unchanged and the system instruction is the base one.
\<close>

theorem aspect_ratio_mapping:
  assumes "opt_aspectRatio opts = Some r"
  shows "(r \<notin> set [''1:1'', ''2:3'', ''3:2'', ''3:4'', ''4:3'', ''4:5'', ''5:4'', ''9:16'', ''16:9'', ''21:9''] \<longrightarrow>
            imageAspectRatio (buildRequest opts) = ''21:9'' \<and>
            systemInstruction (buildRequest opts) =
              baseInstruction @ '' Special formatting request: The user wants an ultra-wide panoramic aspect ratio of ''
                @ r @ ''. Since the canvas is limited to 21:9, ensure the composition is cinematic and uses the full horizontal width for an ultra-wide feel.'') \<and>
         (r \<in> set [''1:1'', ''2:3'', ''3:2'', ''3:4'', ''4:3'', ''4:5'', ''5:4'', ''9:16'', ''16:9'', ''21:9''] \<longrightarrow>
            imageAspectRatio (buildRequest opts) = r \<and>
            systemInstruction (buildRequest opts) = baseInstruction)"
  using assms
  by (simp add: buildRequest_def configRatio_def systemInstructionFor_def isSpecialRatio_def
        ratioOf_def SUPPORTED_ASPECT_RATIOS_def)

theorem aspect_ratio_mapping_witness:
  "imageAspectRatio (buildRequest
      \<lparr>opt_prompt = ''a wide beach'', opt_sourceImages = Some [], opt_aspectRatio = Some ''10:1''\<rparr>)
     = ''21:9'' \<and>
   systemInstruction (buildRequest
      \<lparr>opt_prompt = ''a wide beach'', opt_sourceImages = Some [], opt_aspectRatio = Some ''10:1''\<rparr>)
     = baseInstruction @ '' Special formatting request: The user wants an ultra-wide panoramic aspect ratio of 10:1. Since the canvas is limited to 21:9, ensure the composition is cinematic and uses the full horizontal width for an ultra-wide feel.'' \<and>
   imageAspectRatio (buildRequest
      \<lparr>opt_prompt = ''a wide beach'', opt_sourceImages = Some [], opt_aspectRatio = Some ''4:5''\<rparr>)
     = ''4:5'' \<and>
   systemInstruction (buildRequest
      \<lparr>opt_prompt = ''a wide beach'', opt_sourceImages = Some [], opt_aspectRatio = Some ''4:5''\<rparr>)
     = baseInstruction"
  using aspect_ratio_mapping [of
      "\<lparr>opt_prompt = ''a wide beach'', opt_sourceImages = Some [], opt_aspectRatio = Some ''10:1''\<rparr>"
      "''10:1''"]
    aspect_ratio_mapping [of
      "\<lparr>opt_prompt = ''a wide beach'', opt_sourceImages = Some [], opt_aspectRatio = Some ''4:5''\<rparr>"
      "''4:5''"]
  by simp

section \<open>The application component (App)\<close>

text \<open>
  The state cells of \<open>App\<close>. The component exists in two versions: \<open>App0\<close> guards
  \<open>handleGenerate\<close> with the busy flag and submits on Enter as well; \<open>App1\<close> submits only
  through the button and restores the source images of a history entry.
\<close>

record GeneratedImage =
  gi_id :: string
  gi_url :: string
  gi_prompt :: string
  gi_sourceImages :: "string list option"
  gi_timestamp :: nat

record app =
  prompt :: string
  sourceImages :: "ImageState list"
  generatedImage :: "string option"
  isLoading :: bool
  isCopied :: bool
  error :: "string option"
  aspectRatio :: string
  history :: "GeneratedImage list"

definition app_init :: app where
  "app_init = \<lparr>prompt = [], sourceImages = [], generatedImage = None, isLoading = False,
               isCopied = False, error = None, aspectRatio = ''1:1'', history = []\<rparr>"

text \<open>
  \<open>handleGenerate\<close> is asynchronous. Its first part runs up to the \<open>await\<close>: it returns the
  new state and the request passed to \<open>generateOrEditImage\<close>, or no request when it
  returned early. Its second part runs when the promise settles, on the state of that
  moment; \<open>prompt\<close> and \<open>sourceImages\<close> there are the values the call closed over. The new
  entry's id (time and random suffix) and timestamp come from the environment.
\<close>

definition requestOf :: "app \<Rightarrow> GenerateOptions" where
  "requestOf s = \<lparr>opt_prompt = prompt s, opt_sourceImages = Some (sourceImages s),
                  opt_aspectRatio = Some (aspectRatio s)\<rparr>"

definition handleGenerate0_start :: "app \<Rightarrow> app \<times> GenerateOptions option" where
  "handleGenerate0_start s =
     (if trim (prompt s) = [] \<or> isLoading s then (s, None)
      else (s\<lparr>isLoading := True, error := None\<rparr>, Some (requestOf s)))"

definition handleGenerate1_start :: "app \<Rightarrow> app \<times> GenerateOptions option" where
  "handleGenerate1_start s =
     (if trim (prompt s) = [] then (s, None)
      else (s\<lparr>isLoading := True, error := None\<rparr>, Some (requestOf s)))"

definition handleGenerate_finish ::
    "string \<Rightarrow> ImageState list \<Rightarrow> string + string \<Rightarrow> string \<Rightarrow> nat \<Rightarrow> app \<Rightarrow> app" where
  "handleGenerate_finish p imgs settled newId now s =
     (case settled of
        Inr result \<Rightarrow>
          s\<lparr>generatedImage := Some result,
            history := \<lparr>gi_id = newId, gi_url = result, gi_prompt = p,
                        gi_sourceImages = Some (map data imgs), gi_timestamp = now\<rparr> # history s,
            isLoading := False\<rparr>
      | Inl message \<Rightarrow>
          s\<lparr>error := Some (orDefault (Some message) ''An unexpected error occurred.''),
            isLoading := False\<rparr>)"

text \<open>The \<open>Button\<close> component passes \<open>disabled || isLoading\<close> to the native button; a
  click on a disabled button does not reach \<open>onClick\<close>.\<close>

definition button_disabled :: "bool \<Rightarrow> bool \<Rightarrow> bool" where
  "button_disabled disabled loading \<longleftrightarrow> disabled \<or> loading"

definition clickGenerate0 :: "app \<Rightarrow> app \<times> GenerateOptions option" where
  "clickGenerate0 s =
     (if button_disabled (trim (prompt s) = [] \<or> isLoading s) (isLoading s) then (s, None)
      else handleGenerate0_start s)"

definition clickGenerate1 :: "app \<Rightarrow> app \<times> GenerateOptions option" where
  "clickGenerate1 s =
     (if button_disabled (trim (prompt s) = [] \<or> isLoading s) (isLoading s) then (s, None)
      else handleGenerate1_start s)"

text \<open>\<open>handleKeyDown\<close> of \<open>App0\<close>: the key and whether Shift is held.\<close>

definition handleKeyDown0 :: "string \<Rightarrow> bool \<Rightarrow> app \<Rightarrow> app \<times> GenerateOptions option" where
  "handleKeyDown0 key shiftKey s =
     (if key = ''Enter'' \<and> \<not> shiftKey then handleGenerate0_start s else (s, None))"

text \<open>The capture group of \<open>data.match(/data:([^;]+);/)\<close>: \<open>matchAt\<close> tries the pattern at
  the start of a string (\<open>data:\<close>, then a non-empty run of characters other than \<open>;\<close>,
  then \<open>;\<close>) and yields the run; \<open>mimeMatch\<close> tries every position from the left and
  yields \<open>None\<close> when the pattern matches nowhere.\<close>

definition matchAt :: "string \<Rightarrow> string option" where
  "matchAt s =
     (if startsWith s ''data:'' then
        (let rest = drop (length ''data:'') s;
             tag = takeWhile (\<lambda>x. x \<noteq> CHR '';'') rest
         in if tag \<noteq> [] \<and> dropWhile (\<lambda>x. x \<noteq> CHR '';'') rest \<noteq> [] then Some tag
            else None)
      else None)"

fun mimeMatch :: "string \<Rightarrow> string option" where
  "mimeMatch [] = None"
| "mimeMatch (c # cs) =
     (case matchAt (c # cs) of Some tag \<Rightarrow> Some tag | None \<Rightarrow> mimeMatch cs)"

text \<open>What it means for a string to match the pattern somewhere: it contains \<open>data:\<close>,
  a non-empty run without \<open>;\<close>, and \<open>;\<close>, one after the other.\<close>

definition matchesDataPattern :: "string \<Rightarrow> bool" where
  "matchesDataPattern d \<longleftrightarrow>
     (\<exists>pre t rest. d = pre @ ''data:'' @ t @ '';'' @ rest \<and> t \<noteq> [] \<and> CHR '';'' \<notin> set t)"

definition restoreImage :: "string \<Rightarrow> ImageState" where
  "restoreImage d =
     \<lparr>data = d, mimeType = (case mimeMatch d of Some t \<Rightarrow> t | None \<Rightarrow> ''image/png'')\<rparr>"

definition handleRestoreHistory :: "GeneratedImage \<Rightarrow> app \<Rightarrow> app" where
  "handleRestoreHistory item s =
     s\<lparr>generatedImage := Some (gi_url item),
       prompt := gi_prompt item,
       sourceImages :=
         (case gi_sourceImages item of
            Some imgs \<Rightarrow> (if length imgs > 0 then map restoreImage imgs else [])
          | None \<Rightarrow> [])\<rparr>"

text \<open>The other handlers of the two versions that write the state.\<close>

definition handleUseAsReference :: "app \<Rightarrow> app" where
  "handleUseAsReference s =
     (if truthy (generatedImage s) then
        s\<lparr>sourceImages := sourceImages s
                            @ [\<lparr>data = orDefault (generatedImage s) [], mimeType = ''image/png''\<rparr>],
          generatedImage := None\<rparr>
      else s)"

definition handleDeleteHistory :: "string \<Rightarrow> app \<Rightarrow> app" where
  "handleDeleteHistory i s = s\<lparr>history := filter (\<lambda>item. gi_id item \<noteq> i) (history s)\<rparr>"

definition selectHistory0 :: "GeneratedImage \<Rightarrow> app \<Rightarrow> app" where
  "selectHistory0 item s = s\<lparr>generatedImage := Some (gi_url item), prompt := gi_prompt item\<rparr>"

text \<open>\<open>handleCopyToClipboard\<close> of \<open>App0\<close>, with the outcome of the clipboard write.\<close>

definition handleCopy_done :: "bool \<Rightarrow> app \<Rightarrow> app" where
  "handleCopy_done ok s =
     (if \<not> truthy (generatedImage s) then s
      else if ok then s\<lparr>isCopied := True\<rparr>
      else s\<lparr>error := Some ''Clipboard access denied.''\<rparr>)"

subsection \<open>The component with its requests in flight\<close>

text \<open>
  The component together with the promises it awaits: \<open>pending\<close> holds, oldest first, the
  values each unfinished call of \<open>handleGenerate\<close> closed over; \<open>dispatched\<close> lists the
  requests passed to \<open>generateOrEditImage\<close> so far.
\<close>

record sys =
  ui :: app
  pending :: "(string \<times> ImageState list) list"
  dispatched :: "GenerateOptions list"

definition sys_init :: sys where
  "sys_init = \<lparr>ui = app_init, pending = [], dispatched = []\<rparr>"

datatype app_event =
    SetPrompt string
  | SetSourceImages "ImageState list"
  | SetAspectRatio string
  | ClickGenerate
  | KeyDown string bool
  | Settle "string + string" string nat
  | SelectHistory GeneratedImage
  | DeleteHistory string
  | ClearHistory
  | UseAsReference
  | CopyDone bool
  | CopiedTimeout

definition submitted :: "sys \<Rightarrow> app \<times> GenerateOptions option \<Rightarrow> sys" where
  "submitted s r =
     (case snd r of
        None \<Rightarrow> s\<lparr>ui := fst r\<rparr>
      | Some q \<Rightarrow> s\<lparr>ui := fst r,
                    pending := pending s @ [(prompt (ui s), sourceImages (ui s))],
                    dispatched := dispatched s @ [q]\<rparr>)"

definition settled_step :: "sys \<Rightarrow> string + string \<Rightarrow> string \<Rightarrow> nat \<Rightarrow> sys" where
  "settled_step s out i t =
     (case pending s of
        [] \<Rightarrow> s
      | c # cs \<Rightarrow> s\<lparr>ui := handleGenerate_finish (fst c) (snd c) out i t (ui s), pending := cs\<rparr>)"

fun sys_step0 :: "sys \<Rightarrow> app_event \<Rightarrow> sys" where
  "sys_step0 s (SetPrompt p) = s\<lparr>ui := (ui s)\<lparr>prompt := p\<rparr>\<rparr>"
| "sys_step0 s (SetSourceImages imgs) = s\<lparr>ui := (ui s)\<lparr>sourceImages := imgs\<rparr>\<rparr>"
| "sys_step0 s (SetAspectRatio r) = s\<lparr>ui := (ui s)\<lparr>aspectRatio := r\<rparr>\<rparr>"
| "sys_step0 s ClickGenerate = submitted s (clickGenerate0 (ui s))"
| "sys_step0 s (KeyDown k sh) = submitted s (handleKeyDown0 k sh (ui s))"
| "sys_step0 s (Settle out i t) = settled_step s out i t"
| "sys_step0 s (SelectHistory item) = s\<lparr>ui := selectHistory0 item (ui s)\<rparr>"
| "sys_step0 s (DeleteHistory i) = s"
| "sys_step0 s ClearHistory = s\<lparr>ui := (ui s)\<lparr>history := []\<rparr>\<rparr>"
| "sys_step0 s UseAsReference = s"
| "sys_step0 s (CopyDone ok) = s\<lparr>ui := handleCopy_done ok (ui s)\<rparr>"
| "sys_step0 s CopiedTimeout = s\<lparr>ui := (ui s)\<lparr>isCopied := False\<rparr>\<rparr>"

fun sys_step1 :: "sys \<Rightarrow> app_event \<Rightarrow> sys" where
  "sys_step1 s (SetPrompt p) = s\<lparr>ui := (ui s)\<lparr>prompt := p\<rparr>\<rparr>"
| "sys_step1 s (SetSourceImages imgs) = s\<lparr>ui := (ui s)\<lparr>sourceImages := imgs\<rparr>\<rparr>"
| "sys_step1 s (SetAspectRatio r) = s\<lparr>ui := (ui s)\<lparr>aspectRatio := r\<rparr>\<rparr>"
| "sys_step1 s ClickGenerate = submitted s (clickGenerate1 (ui s))"
| "sys_step1 s (KeyDown k sh) = s"
| "sys_step1 s (Settle out i t) = settled_step s out i t"
| "sys_step1 s (SelectHistory item) = s\<lparr>ui := handleRestoreHistory item (ui s)\<rparr>"
| "sys_step1 s (DeleteHistory i) = s\<lparr>ui := handleDeleteHistory i (ui s)\<rparr>"
| "sys_step1 s ClearHistory = s\<lparr>ui := (ui s)\<lparr>history := []\<rparr>\<rparr>"
| "sys_step1 s UseAsReference = s\<lparr>ui := handleUseAsReference (ui s)\<rparr>"
| "sys_step1 s (CopyDone ok) = s"
| "sys_step1 s CopiedTimeout = s"

definition sys_run0 :: "app_event list \<Rightarrow> sys" where
  "sys_run0 es = foldl sys_step0 sys_init es"

definition sys_run1 :: "app_event list \<Rightarrow> sys" where
  "sys_run1 es = foldl sys_step1 sys_init es"

text \<open>The busy flag is set exactly while a request is in flight, and there is at most
  one.\<close>

definition busy_inv :: "sys \<Rightarrow> bool" where
  "busy_inv s \<longleftrightarrow> length (pending s) \<le> 1 \<and> (isLoading (ui s) \<longleftrightarrow> pending s \<noteq> [])"

lemma handleGenerate_finish_idle: "\<not> isLoading (handleGenerate_finish p imgs out i t u)"
  by (simp add: handleGenerate_finish_def split: sum.splits)

lemma submitted_click0_inv: "busy_inv s \<Longrightarrow> busy_inv (submitted s (clickGenerate0 (ui s)))"
  by (auto simp: busy_inv_def submitted_def clickGenerate0_def button_disabled_def
        handleGenerate0_start_def)

lemma submitted_key0_inv: "busy_inv s \<Longrightarrow> busy_inv (submitted s (handleKeyDown0 k sh (ui s)))"
  by (auto simp: busy_inv_def submitted_def handleKeyDown0_def handleGenerate0_start_def)

lemma submitted_click1_inv: "busy_inv s \<Longrightarrow> busy_inv (submitted s (clickGenerate1 (ui s)))"
  by (auto simp: busy_inv_def submitted_def clickGenerate1_def button_disabled_def
        handleGenerate1_start_def)

lemma settled_step_inv: "busy_inv s \<Longrightarrow> busy_inv (settled_step s out i t)"
  by (cases "pending s")
     (auto simp: busy_inv_def settled_step_def handleGenerate_finish_idle)

lemma sys_step0_inv: "busy_inv s \<Longrightarrow> busy_inv (sys_step0 s e)"
proof (cases e)
  case ClickGenerate
  assume "busy_inv s"
  with ClickGenerate show ?thesis by (simp add: submitted_click0_inv)
next
  case (KeyDown k sh)
  assume "busy_inv s"
  with KeyDown show ?thesis by (simp add: submitted_key0_inv)
next
  case (Settle out i t)
  assume "busy_inv s"
  with Settle show ?thesis by (simp add: settled_step_inv)
qed (simp_all add: busy_inv_def selectHistory0_def handleCopy_done_def)

lemma sys_step1_inv: "busy_inv s \<Longrightarrow> busy_inv (sys_step1 s e)"
proof (cases e)
  case ClickGenerate
  assume "busy_inv s"
  with ClickGenerate show ?thesis by (simp add: submitted_click1_inv)
next
  case (Settle out i t)
  assume "busy_inv s"
  with Settle show ?thesis by (simp add: settled_step_inv)
qed (simp_all add: busy_inv_def handleRestoreHistory_def handleDeleteHistory_def
       handleUseAsReference_def)

lemma sys_init_inv: "busy_inv sys_init"
  by (simp add: busy_inv_def sys_init_def app_init_def)

lemma foldl_step0_inv: "busy_inv s \<Longrightarrow> busy_inv (foldl sys_step0 s es)"
  by (induction es arbitrary: s) (simp_all add: sys_step0_inv)

lemma foldl_step1_inv: "busy_inv s \<Longrightarrow> busy_inv (foldl sys_step1 s es)"
  by (induction es arbitrary: s) (simp_all add: sys_step1_inv)

lemma orDefault_nonempty: "d \<noteq> [] \<Longrightarrow> orDefault m d \<noteq> []"
  by (cases m) simp_all

lemma settle_message_nonempty: "settle out = Inl m \<Longrightarrow> m \<noteq> []"
  by (cases out) (auto simp: settle_def orDefault_nonempty split: sum.splits if_splits)

lemma red_balloon_text_part:
  "parts (buildRequest \<lparr>opt_prompt = ''a red balloon'', opt_sourceImages = Some [],
                         opt_aspectRatio = Some ''1:1''\<rparr>)
     = [TextPart ''Generate an image of a red balloon'']"
  by (simp add: buildRequest_def imageParts_def finalPrompt_def toLowerCase_def lowerChar_def
        startsWith_def Let_def)

subsection \<open>Claims about submitting\<close>

text \<open>
  C3. While the busy flag \<open>isLoading\<close> is set, a submit attempt changes nothing and passes
  no request to the generation client: in \<open>App0\<close> the handler returns at its guard,
  whether it was reached from the button or from the Enter key; in \<open>App1\<close> the button,
  the only way to the handler, is disabled. Hence in every run of either version, from
  the initial state, at most one request is in flight at any time, and the flag is set
  exactly while one is.
\<close>

theorem busy_submit_is_noop:
  "(isLoading s \<longrightarrow>
      clickGenerate0 s = (s, None) \<and> handleKeyDown0 key shiftKey s = (s, None) \<and>
      handleGenerate0_start s = (s, None) \<and> clickGenerate1 s = (s, None)) \<and>
   (isLoading (ui t) \<longrightarrow>
      sys_step0 t ClickGenerate = t \<and> sys_step0 t (KeyDown key shiftKey) = t \<and>
      sys_step1 t ClickGenerate = t) \<and>
   length (pending (sys_run0 es)) \<le> 1 \<and>
   (isLoading (ui (sys_run0 es)) \<longleftrightarrow> pending (sys_run0 es) \<noteq> []) \<and>
   length (pending (sys_run1 es)) \<le> 1 \<and>
   (isLoading (ui (sys_run1 es)) \<longleftrightarrow> pending (sys_run1 es) \<noteq> [])"
proof -
  have a: "isLoading s \<longrightarrow>
      clickGenerate0 s = (s, None) \<and> handleKeyDown0 key shiftKey s = (s, None) \<and>
      handleGenerate0_start s = (s, None) \<and> clickGenerate1 s = (s, None)"
    by (simp add: clickGenerate0_def clickGenerate1_def handleKeyDown0_def
          handleGenerate0_start_def button_disabled_def)
  have b: "isLoading (ui t) \<longrightarrow>
      sys_step0 t ClickGenerate = t \<and> sys_step0 t (KeyDown key shiftKey) = t \<and>
      sys_step1 t ClickGenerate = t"
    by (simp add: clickGenerate0_def clickGenerate1_def handleKeyDown0_def
          handleGenerate0_start_def button_disabled_def submitted_def)
  have c: "busy_inv (sys_run0 es)"
    unfolding sys_run0_def by (rule foldl_step0_inv [OF sys_init_inv])
  have d: "busy_inv (sys_run1 es)"
    unfolding sys_run1_def by (rule foldl_step1_inv [OF sys_init_inv])
  from a b c d show ?thesis
    unfolding busy_inv_def by blast
qed

theorem busy_submit_is_noop_witness:
  "isLoading (ui (sys_run0 [SetPrompt ''a cat'', ClickGenerate])) \<and>
   dispatched (sys_run0 [SetPrompt ''a cat'', ClickGenerate, KeyDown ''Enter'' False, ClickGenerate])
     = [\<lparr>opt_prompt = ''a cat'', opt_sourceImages = Some [], opt_aspectRatio = Some ''1:1''\<rparr>] \<and>
   sys_step0 (sys_run0 [SetPrompt ''a cat'', ClickGenerate]) ClickGenerate
     = sys_run0 [SetPrompt ''a cat'', ClickGenerate] \<and>
   sys_step1 (sys_run0 [SetPrompt ''a cat'', ClickGenerate]) ClickGenerate
     = sys_run0 [SetPrompt ''a cat'', ClickGenerate]"
proof -
  have l: "isLoading (ui (sys_run0 [SetPrompt ''a cat'', ClickGenerate]))"
    by (simp add: sys_run0_def sys_init_def app_init_def clickGenerate0_def button_disabled_def
          handleGenerate0_start_def submitted_def trim_def isWhitespace_def requestOf_def)
  have d: "dispatched (sys_run0 [SetPrompt ''a cat'', ClickGenerate, KeyDown ''Enter'' False, ClickGenerate])
     = [\<lparr>opt_prompt = ''a cat'', opt_sourceImages = Some [], opt_aspectRatio = Some ''1:1''\<rparr>]"
    by (simp add: sys_run0_def sys_init_def app_init_def clickGenerate0_def button_disabled_def
          handleKeyDown0_def handleGenerate0_start_def submitted_def trim_def isWhitespace_def
          requestOf_def)
  from l d busy_submit_is_noop [of "ui (sys_run0 [SetPrompt ''a cat'', ClickGenerate])"
      "''Enter''" False "sys_run0 [SetPrompt ''a cat'', ClickGenerate]" "[]"]
  show ?thesis by (simp add: submitted_def)
qed

text \<open>
  C4. Submitting with the prompt \<open>a red balloon\<close>, no source images and the ratio \<open>1:1\<close>,
  while no generation is in flight, passes to the generation client a request with an
  empty image list, exactly that prompt and that ratio (in both versions, from the button
  and from the Enter key). When the promise resolves with an image, the first history
  entry afterwards has that prompt and an empty list of source images, whatever happened
  to the state in between.
\<close>

theorem red_balloon_request_and_history:
  assumes "prompt s = ''a red balloon''" and "sourceImages s = []"
    and "aspectRatio s = ''1:1''" and "\<not> isLoading s"
  shows "snd (clickGenerate0 s) = Some \<lparr>opt_prompt = ''a red balloon'', opt_sourceImages = Some [],
                                         opt_aspectRatio = Some ''1:1''\<rparr> \<and>
         snd (handleKeyDown0 ''Enter'' False s) = snd (clickGenerate0 s) \<and>
         snd (clickGenerate1 s) = snd (clickGenerate0 s) \<and>
         fst (clickGenerate0 s) = s\<lparr>isLoading := True, error := None\<rparr> \<and>
         gi_prompt (hd (history
            (handleGenerate_finish (prompt s) (sourceImages s) (Inr result) i t s')))
           = ''a red balloon'' \<and>
         gi_sourceImages (hd (history
            (handleGenerate_finish (prompt s) (sourceImages s) (Inr result) i t s')))
           = Some [] \<and>
         gi_url (hd (history
            (handleGenerate_finish (prompt s) (sourceImages s) (Inr result) i t s')))
           = result \<and>
         generatedImage (handleGenerate_finish (prompt s) (sourceImages s) (Inr result) i t s')
           = Some result"
proof -
  have tr: "trim ''a red balloon'' \<noteq> []"
    by (simp add: trim_def isWhitespace_def)
  with assms show ?thesis
    by (simp add: clickGenerate0_def clickGenerate1_def handleKeyDown0_def
          handleGenerate0_start_def handleGenerate1_start_def button_disabled_def
          requestOf_def handleGenerate_finish_def)
qed

theorem red_balloon_request_and_history_witness:
  "dispatched (sys_run0 [SetPrompt ''a red balloon'', ClickGenerate])
     = [\<lparr>opt_prompt = ''a red balloon'', opt_sourceImages = Some [],
         opt_aspectRatio = Some ''1:1''\<rparr>] \<and>
   history (ui (sys_run0 [SetPrompt ''a red balloon'', ClickGenerate,
                          Settle (Inr ''data:image/png;base64,AA'') ''17abc'' 17]))
     = [\<lparr>gi_id = ''17abc'', gi_url = ''data:image/png;base64,AA'', gi_prompt = ''a red balloon'',
         gi_sourceImages = Some [], gi_timestamp = 17\<rparr>]"
proof -
  let ?s = "app_init\<lparr>prompt := ''a red balloon''\<rparr>"
  have h: "prompt ?s = ''a red balloon''" "sourceImages ?s = []" "aspectRatio ?s = ''1:1''"
      "\<not> isLoading ?s"
    by (simp_all add: app_init_def)
  have run: "sys_run0 [SetPrompt ''a red balloon'', ClickGenerate]
      = submitted (sys_init\<lparr>ui := ?s\<rparr>) (clickGenerate0 ?s)"
    by (simp add: sys_run0_def sys_init_def)
  from red_balloon_request_and_history [OF h, of "''data:image/png;base64,AA''" "''17abc''" 17 ?s]
  have req: "clickGenerate0 ?s = (?s\<lparr>isLoading := True, error := None\<rparr>,
        Some \<lparr>opt_prompt = ''a red balloon'', opt_sourceImages = Some [],
              opt_aspectRatio = Some ''1:1''\<rparr>)"
    by (simp add: prod_eq_iff)
  have "sys_run0 [SetPrompt ''a red balloon'', ClickGenerate,
                  Settle (Inr ''data:image/png;base64,AA'') ''17abc'' 17]
      = settled_step (sys_run0 [SetPrompt ''a red balloon'', ClickGenerate])
          (Inr ''data:image/png;base64,AA'') ''17abc'' 17"
    by (simp add: sys_run0_def)
  then show ?thesis
    unfolding run req
    by (simp add: submitted_def settled_step_def sys_init_def app_init_def
          handleGenerate_finish_def)
qed

subsection \<open>The pattern match of the restore handler\<close>

lemma takeWhile_tag:
  "CHR '';'' \<notin> set t \<Longrightarrow> takeWhile (\<lambda>x. x \<noteq> CHR '';'') (t @ CHR '';'' # rest) = t"
  by (induction t) auto

lemma dropWhile_tag:
  "CHR '';'' \<notin> set t \<Longrightarrow> dropWhile (\<lambda>x. x \<noteq> CHR '';'') (t @ CHR '';'' # rest) = CHR '';'' # rest"
  by (induction t) auto

lemma matchAt_data_url:
  "t \<noteq> [] \<Longrightarrow> CHR '';'' \<notin> set t \<Longrightarrow> matchAt (''data:'' @ t @ '';'' @ rest) = Some t"
  by (simp add: matchAt_def startsWith_def takeWhile_tag dropWhile_tag)

lemma mimeMatch_data_url:
  "t \<noteq> [] \<Longrightarrow> CHR '';'' \<notin> set t \<Longrightarrow> mimeMatch (''data:'' @ t @ '';'' @ rest) = Some t"
  using matchAt_data_url [of t rest] by simp

lemma mimeMatch_complete:
  "t \<noteq> [] \<Longrightarrow> CHR '';'' \<notin> set t \<Longrightarrow> mimeMatch (pre @ ''data:'' @ t @ '';'' @ rest) \<noteq> None"
proof (induction pre)
  case Nil
  then show ?case using mimeMatch_data_url [of t rest] by simp
next
  case (Cons c pre)
  then show ?case by (simp split: option.splits)
qed

lemma startsWith_append: "startsWith s p \<Longrightarrow> s = p @ drop (length p) s"
  by (metis append_take_drop_id startsWith_def)

lemma matchAt_sound:
  assumes "matchAt s = Some t"
  shows "\<exists>rest. s = ''data:'' @ t @ '';'' @ rest \<and> t \<noteq> [] \<and> CHR '';'' \<notin> set t"
proof -
  let ?P = "\<lambda>x. x \<noteq> CHR '';''"
  let ?rest = "drop (length ''data:'') s"
  from assms have sw: "startsWith s ''data:''" and t: "t = takeWhile ?P ?rest"
    and ne: "t \<noteq> []" and dw: "dropWhile ?P ?rest \<noteq> []"
    by (auto simp: matchAt_def Let_def split: if_splits)
  from sw have d: "s = ''data:'' @ ?rest"
    by (rule startsWith_append)
  from dw obtain x xs where xs: "dropWhile ?P ?rest = x # xs"
    by (cases "dropWhile ?P ?rest") auto
  then have "\<not> ?P x" using hd_dropWhile [of ?P ?rest] by fastforce
  then have x: "x = CHR '';''" by simp
  have "?rest = takeWhile ?P ?rest @ dropWhile ?P ?rest" by simp
  with xs x t have r: "?rest = t @ '';'' @ xs" by simp
  have "CHR '';'' \<notin> set t" unfolding t using set_takeWhileD by fastforce
  with ne d r show ?thesis by metis
qed

lemma mimeMatch_sound:
  "mimeMatch d = Some t \<Longrightarrow>
   \<exists>pre rest. d = pre @ ''data:'' @ t @ '';'' @ rest \<and> t \<noteq> [] \<and> CHR '';'' \<notin> set t"
proof (induction d)
  case Nil
  then show ?case by simp
next
  case (Cons c cs)
  show ?case
  proof (cases "matchAt (c # cs)")
    case (Some u)
    with Cons.prems have "u = t" by simp
    with Some matchAt_sound [of "c # cs" t] obtain rest where
      "c # cs = [] @ ''data:'' @ t @ '';'' @ rest" "t \<noteq> []" "CHR '';'' \<notin> set t" by auto
    then show ?thesis by blast
  next
    case None
    with Cons.prems have "mimeMatch cs = Some t" by simp
    from Cons.IH [OF this] obtain pre rest where
      "cs = pre @ ''data:'' @ t @ '';'' @ rest" "t \<noteq> []" "CHR '';'' \<notin> set t" by blast
    then have "c # cs = (c # pre) @ ''data:'' @ t @ '';'' @ rest" by simp
    with \<open>t \<noteq> []\<close> \<open>CHR '';'' \<notin> set t\<close> show ?thesis by blast
  qed
qed

lemma mimeMatch_None_iff: "mimeMatch d = None \<longleftrightarrow> \<not> matchesDataPattern d"
proof
  assume n: "mimeMatch d = None"
  show "\<not> matchesDataPattern d"
  proof
    assume "matchesDataPattern d"
    then obtain pre t rest where "d = pre @ ''data:'' @ t @ '';'' @ rest" "t \<noteq> []"
        "CHR '';'' \<notin> set t"
      unfolding matchesDataPattern_def by blast
    with mimeMatch_complete [of t pre rest] n show False by simp
  qed
next
  assume m: "\<not> matchesDataPattern d"
  show "mimeMatch d = None"
  proof (cases "mimeMatch d")
    case None
    then show ?thesis .
  next
    case (Some t)
    from mimeMatch_sound [OF this] m show ?thesis
      unfolding matchesDataPattern_def by blast
  qed
qed


lemma restored_sourceImages:
  "gi_sourceImages item = Some imgs \<Longrightarrow>
   sourceImages (handleRestoreHistory item s) = map restoreImage imgs"
  by (cases imgs) (simp_all add: handleRestoreHistory_def)

subsection \<open>Claims about failures and about restoring\<close>

text \<open>
  C6. Both versions of the wrapper settle the remote call with \<open>settle\<close>. A remote call
  that throws, and a response that carries text and no image, both reject the promise
  with one message; and whenever the promise is rejected with a message, the component
  stores exactly that (non-empty) message in \<open>error\<close>, clears the busy flag and changes
  nothing else: the displayed image and the history are as before, and no further
  request is dispatched.
\<close>

theorem generation_failure_sets_one_error:
  "generateOrEditImage remote opts = settle (remote (buildRequest opts)) \<and>
   generateOrEditImage_plain remote opts = settle (remote (buildRequest_plain opts)) \<and>
   settle (Throws e) = Inl (orDefault e ''Failed to process image request.'') \<and>
   (firstInline ps = None \<and> firstText ps = Some answer \<longrightarrow>
      settle (Returns \<lparr>candidates = Some (\<lparr>content_parts = Some ps\<rparr> # cs)\<rparr>)
        = Inl (''Model returned text instead of image: '' @ answer)) \<and>
   (settle out = Inl m \<longrightarrow>
      m \<noteq> [] \<and>
      handleGenerate_finish p imgs (settle out) i t s = s\<lparr>error := Some m, isLoading := False\<rparr> \<and>
      generatedImage (handleGenerate_finish p imgs (settle out) i t s) = generatedImage s \<and>
      history (handleGenerate_finish p imgs (settle out) i t s) = history s \<and>
      error (handleGenerate_finish p imgs (settle out) i t s) = Some m \<and>
      dispatched (settled_step y (settle out) i t) = dispatched y \<and>
      length (pending (settled_step y (settle out) i t)) \<le> length (pending y))"
proof -
  have a: "firstInline ps = None \<and> firstText ps = Some answer \<longrightarrow>
      settle (Returns \<lparr>candidates = Some (\<lparr>content_parts = Some ps\<rparr> # cs)\<rparr>)
        = Inl (''Model returned text instead of image: '' @ answer)"
    by (simp add: settle_def parseResponse_def)
  have b: "settle out = Inl m \<longrightarrow>
      m \<noteq> [] \<and>
      handleGenerate_finish p imgs (settle out) i t s = s\<lparr>error := Some m, isLoading := False\<rparr>"
    using settle_message_nonempty [of out m] by (auto simp: handleGenerate_finish_def)
  have c: "dispatched (settled_step y z i t) = dispatched y \<and>
      length (pending (settled_step y z i t)) \<le> length (pending y)" for z
    by (cases "pending y") (simp_all add: settled_step_def)
  from a b c [of "settle out"] show ?thesis
    by (auto simp: generateOrEditImage_def generateOrEditImage_plain_def settle_def)
qed

theorem generation_failure_sets_one_error_witness:
  "settle (Returns \<lparr>candidates = Some [\<lparr>content_parts =
        Some [\<lparr>inlineData = None, text_of = Some ''I cannot draw that.''\<rparr>]\<rparr>]\<rparr>)
     = Inl ''Model returned text instead of image: I cannot draw that.'' \<and>
   handleGenerate_finish ''a dog'' []
     (settle (Returns \<lparr>candidates = Some [\<lparr>content_parts =
        Some [\<lparr>inlineData = None, text_of = Some ''I cannot draw that.''\<rparr>]\<rparr>]\<rparr>))
     ''17abc'' 17
     (app_init\<lparr>prompt := ''a dog'', generatedImage := Some ''data:image/png;base64,AA'',
               isLoading := True\<rparr>)
     = app_init\<lparr>prompt := ''a dog'', generatedImage := Some ''data:image/png;base64,AA'',
               isLoading := False,
               error := Some ''Model returned text instead of image: I cannot draw that.''\<rparr>"
proof -
  let ?ps = "[\<lparr>inlineData = None, text_of = Some ''I cannot draw that.''\<rparr>]"
  let ?out = "Returns \<lparr>candidates = Some [\<lparr>content_parts = Some ?ps\<rparr>]\<rparr>"
  have h: "firstInline ?ps = None \<and> firstText ?ps = Some ''I cannot draw that.''" by simp
  from generation_failure_sets_one_error [of _ _ _ ?ps "''I cannot draw that.''" "[]" ?out
      "''Model returned text instead of image: I cannot draw that.''" "''a dog''" "[]"
      "''17abc''" 17
      "app_init\<lparr>prompt := ''a dog'', generatedImage := Some ''data:image/png;base64,AA'',
                isLoading := True\<rparr>"] h
  show ?thesis by (simp add: app_init_def)
qed

text \<open>
  C5. Restoring a history entry gives each source image the media type written in its
  own payload: for a payload of the form \<open>data:<type>;<rest>\<close>, with a non-empty type
  free of \<open>;\<close>, the restored image has exactly that type and the payload as its data.
  The restored set has one image for each stored payload, in the stored order.
\<close>

theorem restore_takes_type_from_payload:
  assumes "gi_sourceImages item = Some imgs" and "k < length imgs"
    and "imgs ! k = ''data:'' @ t @ '';'' @ rest" and "t \<noteq> []" and "CHR '';'' \<notin> set t"
  shows "length (sourceImages (handleRestoreHistory item s)) = length imgs \<and>
         sourceImages (handleRestoreHistory item s) ! k = \<lparr>data = imgs ! k, mimeType = t\<rparr>"
proof -
  have "restoreImage (imgs ! k) = \<lparr>data = imgs ! k, mimeType = t\<rparr>"
    unfolding restoreImage_def assms(3)
    by (simp only: mimeMatch_data_url [OF assms(4,5)] option.case)
  with assms(2) show ?thesis
    by (simp add: restored_sourceImages [OF assms(1)])
qed

theorem restore_takes_type_from_payload_witness:
  "sourceImages (handleRestoreHistory
      \<lparr>gi_id = ''17abc'', gi_url = ''data:image/png;base64,RR'', gi_prompt = ''merge them'',
       gi_sourceImages = Some [''data:image/jpeg;base64,AA'', ''data:image/webp;base64,BB''],
       gi_timestamp = 17\<rparr> app_init) ! 1
     = \<lparr>data = ''data:image/webp;base64,BB'', mimeType = ''image/webp''\<rparr>"
proof -
  let ?item = "\<lparr>gi_id = ''17abc'', gi_url = ''data:image/png;base64,RR'',
       gi_prompt = ''merge them'',
       gi_sourceImages = Some [''data:image/jpeg;base64,AA'', ''data:image/webp;base64,BB''],
       gi_timestamp = 17\<rparr>"
  let ?imgs = "[''data:image/jpeg;base64,AA'', ''data:image/webp;base64,BB'']"
  have h1: "gi_sourceImages ?item = Some ?imgs" by simp
  have h2: "(1::nat) < length ?imgs" by simp
  have h3: "?imgs ! 1 = ''data:'' @ ''image/webp'' @ '';'' @ ''base64,BB''" by simp
  have h4: "''image/webp'' \<noteq> []" by simp
  have h5: "CHR '';'' \<notin> set ''image/webp''" by simp
  from restore_takes_type_from_payload [OF h1 h2 h3 h4 h5, of app_init]
  show ?thesis by simp
qed

text \<open>
  C9. When a stored payload matches the pattern \<open>data:<type>;\<close> nowhere, restoring the
  entry gives that image the fixed media type \<open>image/png\<close>.
\<close>

theorem restore_falls_back_to_png:
  assumes "gi_sourceImages item = Some imgs" and "k < length imgs"
    and "\<not> matchesDataPattern (imgs ! k)"
  shows "sourceImages (handleRestoreHistory item s) ! k
           = \<lparr>data = imgs ! k, mimeType = ''image/png''\<rparr>"
proof -
  from assms(3) have "mimeMatch (imgs ! k) = None"
    by (simp add: mimeMatch_None_iff)
  then have "restoreImage (imgs ! k) = \<lparr>data = imgs ! k, mimeType = ''image/png''\<rparr>"
    by (simp add: restoreImage_def)
  with assms(2) show ?thesis
    by (simp add: restored_sourceImages [OF assms(1)])
qed

theorem restore_falls_back_to_png_witness:
  "sourceImages (handleRestoreHistory
      \<lparr>gi_id = ''17abc'', gi_url = ''data:image/png;base64,RR'', gi_prompt = ''merge them'',
       gi_sourceImages = Some [''data:image/jpeg;base64,AA'', ''iVBORw0KGgo=''],
       gi_timestamp = 17\<rparr> app_init) ! 1
     = \<lparr>data = ''iVBORw0KGgo='', mimeType = ''image/png''\<rparr>"
proof -
  let ?item = "\<lparr>gi_id = ''17abc'', gi_url = ''data:image/png;base64,RR'',
       gi_prompt = ''merge them'',
       gi_sourceImages = Some [''data:image/jpeg;base64,AA'', ''iVBORw0KGgo=''],
       gi_timestamp = 17\<rparr>"
  let ?imgs = "[''data:image/jpeg;base64,AA'', ''iVBORw0KGgo='']"
  have h1: "gi_sourceImages ?item = Some ?imgs" by simp
  have h2: "(1::nat) < length ?imgs" by simp
  have "mimeMatch ''iVBORw0KGgo='' = None"
    by (simp add: matchAt_def startsWith_def)
  then have "\<not> matchesDataPattern ''iVBORw0KGgo=''"
    by (rule mimeMatch_None_iff [THEN iffD1])
  then have h3: "\<not> matchesDataPattern (?imgs ! 1)"
    by simp
  from restore_falls_back_to_png [OF h1 h2 h3, of app_init]
  show ?thesis by simp
qed

end
